theory Spec2Isabelle
  imports Complex_Main "HOL-Library.Char_ord" "HOL-Library.List_Lexorder"
begin

section \<open>Configuration constants of \<^verbatim>\<open>assign_driver.py\<close>\<close>

definition SHEET_STUDENT :: string where "SHEET_STUDENT = ''students''"
definition SHEET_DRIVER :: string where "SHEET_DRIVER = ''drivers''"
definition SHEET_DISTANCE :: string where "SHEET_DISTANCE = ''campus_distance''"
definition LOCATION_COL :: string where "LOCATION_COL = ''location''"
definition CAPACITY_COL :: string where "CAPACITY_COL = ''capacity''"

definition BIG_UBER :: int where "BIG_UBER = 10 ^ 8"
definition BIG_DRIVER :: int where "BIG_DRIVER = 10 ^ 5"
definition SMALL_TRIP :: int where "SMALL_TRIP = 10 ^ 4"
definition BIG_DISTANCE :: int where "BIG_DISTANCE = 10 ^ 6"

section \<open>The input workbook\<close>

text \<open>
  The distance sheet is read with its first column as index: row labels, column labels and
  cells; a blank cell (NaN) is \<open>None\<close>. Floating-point cells are idealised as reals.
\<close>

record dist_table =
  d_index :: "string list"
  d_columns :: "string list"
  d_cell :: "string \<Rightarrow> string \<Rightarrow> real option"

text \<open>
  Of the students sheet the script reads the column labels and the location column (a blank
  cell is \<open>None\<close>); of the drivers sheet the column labels, the first column converted to
  strings and the capacity column converted to integers, row by row.
\<close>

record workbook =
  sheet_names :: "string list"
  students_columns :: "string list"
  students_location :: "string option list"
  drivers_columns :: "string list"
  drivers_rows :: "(string \<times> int) list"
  dist_df :: dist_table

datatype reason = MissingSheet | MissingLocationColumn | MissingCapacityColumn

datatype error = ValueError reason | TypeError | PulpError

text \<open>The columns the module docstring announces for the two tables.\<close>

definition students_expected_columns :: "string list" where
  "students_expected_columns = [''student_name'', ''location'']"

definition drivers_expected_columns :: "string list" where
  "drivers_expected_columns = [''driver_name'', ''capacity'']"

text \<open>Lines 43 to 54: the sheet test and the two column tests, in the source's order.\<close>

definition schema_check :: "workbook \<Rightarrow> error option" where
  "schema_check wb =
     (if SHEET_STUDENT \<notin> set (sheet_names wb) \<or> SHEET_DRIVER \<notin> set (sheet_names wb)
         \<or> SHEET_DISTANCE \<notin> set (sheet_names wb)
      then Some (ValueError MissingSheet)
      else if LOCATION_COL \<notin> set (students_columns wb)
      then Some (ValueError MissingLocationColumn)
      else if CAPACITY_COL \<notin> set (drivers_columns wb)
              \<and> ''num_students'' \<notin> set (drivers_columns wb)
      then Some (ValueError MissingCapacityColumn)
      else None)"

section \<open>Input normalisation\<close>

text \<open>
  \<^verbatim>\<open>groupby(LOCATION_COL).size()\<close>: one entry per distinct non-blank location, keys in
  ascending order, the value the number of rows at that location.
\<close>

definition demand_series :: "string option list \<Rightarrow> (string \<times> int) list" where
  "demand_series col =
     map (\<lambda>k. (k, int (count_list col (Some k)))) (sort (remdups (List.map_filter id col)))"

definition demand :: "string option list \<Rightarrow> string \<rightharpoonup> int" where
  "demand col = map_of (demand_series col)"

definition locations :: "string option list \<Rightarrow> string list" where
  "locations col = map fst (demand_series col)"

definition isolated_locations :: "dist_table \<Rightarrow> string list \<Rightarrow> string list" where
  "isolated_locations d locs =
     sort (remdups (filter (\<lambda>i. i \<notin> set (d_index d) \<or> i \<notin> set (d_columns d)) locs))"

text \<open>
  A travel entry is either the integer object \<^verbatim>\<open>BIG_DISTANCE\<close> or a float made from a
  cell. The test \<^verbatim>\<open>val is BIG_DISTANCE\<close> is object identity: a float is never that object,
  whatever its value, which the two constructors keep apart.
\<close>

datatype num = IntObj int | FloatObj real

fun num_value :: "num \<Rightarrow> real" where
  "num_value (IntObj n) = of_int n"
| "num_value (FloatObj r) = r"

definition travel :: "dist_table \<Rightarrow> string \<Rightarrow> string \<Rightarrow> num" where
  "travel d i j =
     (let val = IntObj BIG_DISTANCE;
          val = (if i \<in> set (d_index d) \<and> j \<in> set (d_columns d)
                 then (case d_cell d i j of None \<Rightarrow> val | Some raw \<Rightarrow> FloatObj raw)
                 else val);
          val = (if val = IntObj BIG_DISTANCE \<and> j \<in> set (d_index d) \<and> i \<in> set (d_columns d)
                 then (case d_cell d j i of None \<Rightarrow> val | Some raw \<Rightarrow> FloatObj raw)
                 else val)
      in val)"

text \<open>
  Whether a direction of the table yields a number: the label is on the row axis, the other
  on the column axis, and the cell is not blank.
\<close>

definition resolvable :: "dist_table \<Rightarrow> string \<Rightarrow> string \<Rightarrow> bool" where
  "resolvable d i j \<longleftrightarrow> i \<in> set (d_index d) \<and> j \<in> set (d_columns d) \<and> d_cell d i j \<noteq> None"

text \<open>Lines 99 to 101: the driver list keeps every row; the capacity dict is keyed by name.\<close>

definition drivers :: "(string \<times> int) list \<Rightarrow> string list" where
  "drivers rows = map fst rows"

definition cap_series :: "(string \<times> int) list \<Rightarrow> int list" where
  "cap_series rows = map snd rows"

definition driver_caps :: "(string \<times> int) list \<Rightarrow> string \<rightharpoonup> int" where
  "driver_caps rows =
     foldl (\<lambda>m i. m(drivers rows ! i \<mapsto> cap_series rows ! i)) Map.empty [0 ..< length (drivers rows)]"

section \<open>Pairs\<close>

text \<open>
  A Python reference is \<^verbatim>\<open>None\<close> or an object; \<^verbatim>\<open>travel[i][k]\<close> is always an object,
  so the reference tested on line 123 is \<open>Some\<close> of it.
\<close>

definition is_not_None :: "'a option \<Rightarrow> bool" where
  "is_not_None v \<longleftrightarrow> v \<noteq> None"

definition pairs :: "dist_table \<Rightarrow> string list \<Rightarrow> (string \<times> string) list" where
  "pairs d locs =
     concat (map (\<lambda>a_idx. concat (map (\<lambda>b_idx.
         (let i = locs ! a_idx; k = locs ! b_idx
          in if is_not_None (Some (travel d i k)) then [(i, k)] else []))
       [a_idx + 1 ..< length locs])) [0 ..< length locs])"

section \<open>The integer program\<close>

text \<open>
  Decision variables are identified by the keys under which the script stores them:
  \<^verbatim>\<open>x[j][i]\<close>, \<^verbatim>\<open>y[j][i]\<close>, \<^verbatim>\<open>u[j]\<close>, \<^verbatim>\<open>w[j][idx]\<close> and \<^verbatim>\<open>uber_y[i]\<close>.
  The model is the list of declared variables, the list of constraints in the order the
  script adds them, each with the name it is given, and the objective. What the solver
  library does with names that coincide is outside the model.
\<close>

datatype var = X string string | Y string string | U string | W string nat | Uber string

datatype category = Binary | Integer

text \<open>A declared variable: its key, its category and its \<^verbatim>\<open>lowBound\<close>.\<close>

datatype decl = Decl var category "int option"

text \<open>
  Affine expressions: a list of terms (coefficient, variable) and a constant. Constraints
  carry integer coefficients, the objective real ones.
\<close>

type_synonym 'a affine = "('a \<times> var) list \<times> 'a"

definition aff_var :: "var \<Rightarrow> 'a::ring_1 affine" where
  "aff_var v = ([(1, v)], 0)"

definition aff_const :: "'a::ring_1 \<Rightarrow> 'a affine" where
  "aff_const c = ([], c)"

definition aff_add :: "'a::ring_1 affine \<Rightarrow> 'a affine \<Rightarrow> 'a affine" where
  "aff_add a b = (fst a @ fst b, snd a + snd b)"

definition aff_scale :: "'a::ring_1 \<Rightarrow> 'a affine \<Rightarrow> 'a affine" where
  "aff_scale c a = (map (\<lambda>(k, v). (c * k, v)) (fst a), c * snd a)"

definition lpSum :: "'a::ring_1 affine list \<Rightarrow> 'a affine" where
  "lpSum es = foldr aff_add es (aff_const 0)"

definition aff_value :: "(var \<Rightarrow> int) \<Rightarrow> 'a::ring_1 affine \<Rightarrow> 'a" where
  "aff_value sol a = sum_list (map (\<lambda>(k, v). k * of_int (sol v)) (fst a)) + snd a"

datatype sense = LE | GE | EQ

record constr =
  c_name :: string
  c_lhs :: "int affine"
  c_sense :: sense
  c_rhs :: "int affine"

record lp =
  lp_variables :: "decl list"
  lp_constraints :: "constr list"
  lp_objective :: "real affine"

text \<open>The normalised input the model is built from.\<close>

record inst =
  i_drivers :: "string list"
  i_caps :: "string \<rightharpoonup> int"
  i_locations :: "string list"
  i_demand :: "string \<rightharpoonup> int"
  i_travel :: "string \<Rightarrow> string \<Rightarrow> num"
  i_pairs :: "(string \<times> string) list"

definition normalise :: "workbook \<Rightarrow> inst" where
  "normalise wb =
     \<lparr> i_drivers = drivers (drivers_rows wb),
       i_caps = driver_caps (drivers_rows wb),
       i_locations = locations (students_location wb),
       i_demand = demand (students_location wb),
       i_travel = travel (dist_df wb),
       i_pairs = pairs (dist_df wb) (locations (students_location wb)) \<rparr>"

text \<open>
  \<^verbatim>\<open>LpVariable.dicts\<close> fills a dict from the index lists: a key that occurs again
  overwrites its entry, so the dict holds one variable per distinct key, at the place of the
  key's first occurrence.
\<close>

definition dict_keys :: "'a list \<Rightarrow> 'a list" where
  "dict_keys xs = rev (remdups (rev xs))"

definition declarations :: "inst \<Rightarrow> decl list" where
  "declarations n =
     concat (map (\<lambda>j. map (\<lambda>i. Decl (X j i) Binary None) (dict_keys (i_locations n)))
         (dict_keys (i_drivers n)))
     @ concat (map (\<lambda>j. map (\<lambda>i. Decl (Y j i) Integer (Some 0)) (dict_keys (i_locations n)))
         (dict_keys (i_drivers n)))
     @ map (\<lambda>j. Decl (U j) Binary None) (dict_keys (i_drivers n))
     @ concat (map (\<lambda>j. map (\<lambda>idx. Decl (W j idx) Binary None) [0 ..< length (i_pairs n)])
         (dict_keys (i_drivers n)))
     @ map (\<lambda>i. Decl (Uber i) Integer (Some 0)) (dict_keys (i_locations n))"

definition cap_link :: "inst \<Rightarrow> constr list" where
  "cap_link n =
     concat (map (\<lambda>j. map (\<lambda>i.
         \<lparr> c_name = ''cap_link_'' @ j @ ''_'' @ i,
           c_lhs = aff_var (Y j i), c_sense = LE,
           c_rhs = aff_scale (the (i_caps n j)) (aff_var (X j i)) \<rparr>)
       (i_locations n)) (i_drivers n))"

definition driver_cap :: "inst \<Rightarrow> constr list" where
  "driver_cap n =
     map (\<lambda>j.
         \<lparr> c_name = ''driver_cap_'' @ j,
           c_lhs = lpSum (map (\<lambda>i. aff_var (Y j i)) (i_locations n)), c_sense = LE,
           c_rhs = aff_scale (the (i_caps n j)) (aff_var (U j)) \<rparr>)
       (i_drivers n)"

definition use_def :: "inst \<Rightarrow> constr list" where
  "use_def n =
     map (\<lambda>j.
         \<lparr> c_name = ''use_def_'' @ j,
           c_lhs = lpSum (map (\<lambda>i. aff_var (X j i)) (i_locations n)), c_sense = LE,
           c_rhs = aff_scale 1000 (aff_var (U j)) \<rparr>)
       (i_drivers n)"

definition max2stops :: "inst \<Rightarrow> constr list" where
  "max2stops n =
     map (\<lambda>j.
         \<lparr> c_name = ''max2stops_'' @ j,
           c_lhs = lpSum (map (\<lambda>i. aff_var (X j i)) (i_locations n)), c_sense = LE,
           c_rhs = aff_const 2 \<rparr>)
       (i_drivers n)"

definition pair_link :: "inst \<Rightarrow> constr list" where
  "pair_link n =
     concat (map (\<lambda>j. concat (map (\<lambda>idx.
         (let (i, k) = i_pairs n ! idx in
          [ \<lparr> c_name = ''w_le_x1_'' @ j @ ''_'' @ i @ ''_'' @ k,
              c_lhs = aff_var (W j idx), c_sense = LE, c_rhs = aff_var (X j i) \<rparr>,
            \<lparr> c_name = ''w_le_x2_'' @ j @ ''_'' @ i @ ''_'' @ k,
              c_lhs = aff_var (W j idx), c_sense = LE, c_rhs = aff_var (X j k) \<rparr>,
            \<lparr> c_name = ''w_ge_summinus1_'' @ j @ ''_'' @ i @ ''_'' @ k,
              c_lhs = aff_var (W j idx), c_sense = GE,
              c_rhs = aff_add (aff_add (aff_var (X j i)) (aff_var (X j k))) (aff_const (- 1)) \<rparr> ]))
       [0 ..< length (i_pairs n)])) (i_drivers n))"

definition demand_cover :: "inst \<Rightarrow> constr list" where
  "demand_cover n =
     map (\<lambda>i.
         \<lparr> c_name = ''demand_cover_'' @ i,
           c_lhs = aff_add (lpSum (map (\<lambda>j. aff_var (Y j i)) (i_drivers n))) (aff_var (Uber i)),
           c_sense = EQ,
           c_rhs = aff_const (the (i_demand n i)) \<rparr>)
       (i_locations n)"

definition total_drivers_used :: "inst \<Rightarrow> real affine" where
  "total_drivers_used n = lpSum (map (\<lambda>j. aff_var (U j)) (i_drivers n))"

definition total_travel_time :: "inst \<Rightarrow> real affine" where
  "total_travel_time n =
     lpSum (concat (map (\<lambda>j. map (\<lambda>idx.
         aff_scale (num_value (i_travel n (fst (i_pairs n ! idx)) (snd (i_pairs n ! idx))))
           (aff_var (W j idx)))
       [0 ..< length (i_pairs n)]) (i_drivers n)))"

definition uber_penalty :: "inst \<Rightarrow> real affine" where
  "uber_penalty n = lpSum (map (\<lambda>i. aff_var (Uber i)) (i_locations n))"

definition objective :: "inst \<Rightarrow> real affine" where
  "objective n =
     aff_add (aff_add (aff_scale (of_int BIG_UBER) (uber_penalty n))
                      (aff_scale (of_int BIG_DRIVER) (total_drivers_used n)))
             (aff_scale (of_int SMALL_TRIP) (total_travel_time n))"

text \<open>
  The variables, the constraints in the order of the statements that add them, and the
  objective, as the script writes them.
\<close>

definition formulation :: "inst \<Rightarrow> lp" where
  "formulation n =
     \<lparr> lp_variables = declarations n,
       lp_constraints =
         cap_link n @ driver_cap n @ use_def n @ max2stops n @ pair_link n @ demand_cover n,
       lp_objective = objective n \<rparr>"

text \<open>
  Adding a constraint to the problem: the solver library replaces the characters
  \<^verbatim>\<open>-+[]\<close> and the blank in the given name by underscores, and refuses a name the
  problem already holds with \<^verbatim>\<open>PulpError\<close> (overlapping constraint names). The
  script adds its constraints one by one to an empty problem, so the first repeated name
  ends it.
\<close>

definition pulp_name :: "string \<Rightarrow> string" where
  "pulp_name s = map (\<lambda>c. if c \<in> set ''-+[] '' then CHR ''_'' else c) s"

fun add_constraints :: "constr list \<Rightarrow> constr list \<Rightarrow> error + constr list" where
  "add_constraints held [] = Inr held"
| "add_constraints held (c # cs) =
     (let name = pulp_name (c_name c)
      in if name \<in> set (map c_name held) then Inl PulpError
         else add_constraints (held @ [c\<lparr>c_name := name\<rparr>]) cs)"

definition build :: "inst \<Rightarrow> error + lp" where
  "build n =
     (case add_constraints [] (lp_constraints (formulation n)) of
        Inl e \<Rightarrow> Inl e
      | Inr cs \<Rightarrow> Inr ((formulation n)\<lparr>lp_constraints := cs\<rparr>))"

text \<open>
  The model of a workbook is the formulation of its normalised input; where the build
  succeeds it is the built problem up to the names of the constraints.
\<close>

definition model :: "workbook \<Rightarrow> lp" where
  "model wb = formulation (normalise wb)"

subsection \<open>Feasible solutions\<close>

text \<open>
  A solution gives every variable an integer. It is feasible when every declared variable
  is within its category and bound and every constraint holds.
\<close>

fun in_domain :: "(var \<Rightarrow> int) \<Rightarrow> decl \<Rightarrow> bool" where
  "in_domain sol (Decl v Binary lb) \<longleftrightarrow> sol v = 0 \<or> sol v = 1"
| "in_domain sol (Decl v Integer lb) \<longleftrightarrow> (case lb of None \<Rightarrow> True | Some l \<Rightarrow> l \<le> sol v)"

definition holds :: "(var \<Rightarrow> int) \<Rightarrow> constr \<Rightarrow> bool" where
  "holds sol c =
     (case c_sense c of
        LE \<Rightarrow> aff_value sol (c_lhs c) \<le> aff_value sol (c_rhs c)
      | GE \<Rightarrow> aff_value sol (c_lhs c) \<ge> aff_value sol (c_rhs c)
      | EQ \<Rightarrow> aff_value sol (c_lhs c) = aff_value sol (c_rhs c))"

definition feasible :: "lp \<Rightarrow> (var \<Rightarrow> int) \<Rightarrow> bool" where
  "feasible m sol \<longleftrightarrow> list_all (in_domain sol) (lp_variables m) \<and> list_all (holds sol) (lp_constraints m)"

definition objective_value :: "lp \<Rightarrow> (var \<Rightarrow> int) \<Rightarrow> real" where
  "objective_value m sol = aff_value sol (lp_objective m)"

text \<open>The three tiers of the objective, read off a solution.\<close>

definition uber_total :: "workbook \<Rightarrow> (var \<Rightarrow> int) \<Rightarrow> int" where
  "uber_total wb sol = sum_list (map (\<lambda>i. sol (Uber i)) (locations (students_location wb)))"

definition drivers_used :: "workbook \<Rightarrow> (var \<Rightarrow> int) \<Rightarrow> int" where
  "drivers_used wb sol = sum_list (map (\<lambda>j. sol (U j)) (drivers (drivers_rows wb)))"

section \<open>Solver status\<close>

text \<open>
  The status codes of the solver library and their strings, as the table
  \<^verbatim>\<open>pulp.LpStatus\<close> gives them.
\<close>

datatype lp_status = NotSolved | Optimal | Infeasible | Unbounded | Undefined

fun LpStatus :: "lp_status \<Rightarrow> string" where
  "LpStatus NotSolved = ''Not Solved''"
| "LpStatus Optimal = ''Optimal''"
| "LpStatus Infeasible = ''Infeasible''"
| "LpStatus Unbounded = ''Unbounded''"
| "LpStatus Undefined = ''Undefined''"

text \<open>Lines 194 and 195: the line printed after the solve, if any.\<close>

definition status_log :: "lp_status \<Rightarrow> string option" where
  "status_log st =
     (if LpStatus st \<notin> set [''Optimal'', ''Not Solved'', ''Integer Feasible'', ''Optimal'']
      then Some (''Solver status: '' @ LpStatus st)
      else None)"

section \<open>Result extraction\<close>

text \<open>
  The value read off a variable is a float or \<^verbatim>\<open>None\<close>. \<^verbatim>\<open>v or 0\<close> is
  \<open>0\<close> for \<^verbatim>\<open>None\<close> and for zero; \<^verbatim>\<open>round\<close> rounds halves to the even neighbour;
  \<^verbatim>\<open>int\<close> of a float truncates towards zero and raises \<^verbatim>\<open>TypeError\<close> on \<^verbatim>\<open>None\<close>.
\<close>

definition or0 :: "real option \<Rightarrow> real" where
  "or0 v = (case v of None \<Rightarrow> 0 | Some r \<Rightarrow> r)"

definition py_round :: "real \<Rightarrow> int" where
  "py_round r =
     (let f = \<lfloor>r\<rfloor>; d = r - of_int f
      in if d < 1 / 2 then f else if 1 / 2 < d then f + 1 else if even f then f else f + 1)"

definition py_int :: "real option \<Rightarrow> error + int" where
  "py_int v =
     (case v of None \<Rightarrow> Inl TypeError
      | Some r \<Rightarrow> Inr (if 0 \<le> r then \<lfloor>r\<rfloor> else \<lceil>r\<rceil>))"

record assignment_row =
  a_driver :: string
  a_location :: string
  a_students_picked :: int
  a_stop_flag :: int

record summary_row =
  s_driver :: string
  s_used :: int
  s_stops :: string
  s_students_picked_total :: int
  s_estimated_travel_time :: real

text \<open>Lines 203 to 216: the rows one driver contributes to \<^verbatim>\<open>driver_assignments\<close>.\<close>

definition assignment_rows :: "inst \<Rightarrow> (var \<Rightarrow> real option) \<Rightarrow> string \<Rightarrow> assignment_row list" where
  "assignment_rows n val j =
     concat (map (\<lambda>i.
         (let xi = py_round (or0 (val (X j i)));
              yi = py_round (or0 (val (Y j i)))
          in if yi \<noteq> 0
             then [\<lparr> a_driver = j, a_location = i, a_students_picked = yi, a_stop_flag = xi \<rparr>]
             else []))
       (i_locations n))"

text \<open>
  Lines 198 to 227: the first loop over the drivers. Line 200 converts \<^verbatim>\<open>u[j]\<close> with no
  default, so a driver whose flag is \<^verbatim>\<open>None\<close> ends the loop with \<^verbatim>\<open>TypeError\<close>.
\<close>

fun driver_assignments :: "inst \<Rightarrow> (var \<Rightarrow> real option) \<Rightarrow> string list \<Rightarrow> error + assignment_row list" where
  "driver_assignments n val [] = Inr []"
| "driver_assignments n val (j # js) =
     (case py_int (val (U j)) of
        Inl e \<Rightarrow> Inl e
      | Inr used \<Rightarrow>
          (case driver_assignments n val js of
             Inl e \<Rightarrow> Inl e
           | Inr rows \<Rightarrow> Inr (assignment_rows n val j @ rows)))"

fun join :: "string \<Rightarrow> string list \<Rightarrow> string" where
  "join sep [] = []"
| "join sep [s] = s"
| "join sep (s # t # ss) = s @ sep @ join sep (t # ss)"

definition travel_time_j :: "inst \<Rightarrow> (var \<Rightarrow> real option) \<Rightarrow> string \<Rightarrow> real" where
  "travel_time_j n val j =
     sum_list (map (\<lambda>idx.
         if py_round (or0 (val (W j idx))) = 1
         then num_value (i_travel n (fst (i_pairs n ! idx)) (snd (i_pairs n ! idx)))
         else 0)
       [0 ..< length (i_pairs n)])"

text \<open>Lines 229 to 245: the second loop, one summary row per entry of the driver list.\<close>

definition driver_summary :: "inst \<Rightarrow> (var \<Rightarrow> real option) \<Rightarrow> summary_row list" where
  "driver_summary n val =
     map (\<lambda>j.
         (let used = py_round (or0 (val (U j)));
              assigned_students = py_round (sum_list (map (\<lambda>i. or0 (val (Y j i))) (i_locations n)));
              stops_list = filter (\<lambda>i. py_round (or0 (val (X j i))) = 1) (i_locations n)
          in \<lparr> s_driver = j, s_used = used,
               s_stops = (if stops_list \<noteq> [] then join '', '' stops_list else []),
               s_students_picked_total = assigned_students,
               s_estimated_travel_time = travel_time_j n val j \<rparr>))
       (i_drivers n)"

text \<open>Lines 249 to 253: the leftover dict, in insertion order.\<close>

definition uber :: "inst \<Rightarrow> (var \<Rightarrow> real option) \<Rightarrow> (string \<times> int) list" where
  "uber n val =
     concat (map (\<lambda>i.
         (let left = py_round (or0 (val (Uber i))) in if 0 < left then [(i, left)] else []))
       (i_locations n))"

record results =
  r_driver_summary :: "summary_row list"
  r_driver_assignments :: "assignment_row list"
  r_uber :: "(string \<times> int) list"

definition extract_results :: "inst \<Rightarrow> (var \<Rightarrow> real option) \<Rightarrow> error + results" where
  "extract_results n val =
     (case driver_assignments n val (i_drivers n) of
        Inl e \<Rightarrow> Inl e
      | Inr rows \<Rightarrow>
          Inr \<lparr> r_driver_summary = driver_summary n val,
                r_driver_assignments = rows,
                r_uber = uber n val \<rparr>)"

section \<open>The script as a whole\<close>

text \<open>
  The solver is a parameter: any function from the problem to a status and a number for
  every variable. The script's solver reads the solution into a table that starts with
  zero for every variable of the problem, whatever the status, so after the solve a
  variable of the problem holds a number and only a variable outside it is
  \<^verbatim>\<open>None\<close>. Every declared variable occurs in a constraint, so the variables of the
  problem are the declared ones. A solver that cannot be started is outside the model.
\<close>

fun decl_var :: "decl \<Rightarrow> var" where
  "decl_var (Decl v c lb) = v"

definition pulp_value :: "lp \<Rightarrow> (var \<Rightarrow> real) \<Rightarrow> var \<Rightarrow> real option" where
  "pulp_value m vals v = (if v \<in> set (map decl_var (lp_variables m)) then Some (vals v) else None)"

text \<open>
  The run fails with the schema error before anything is normalised or built, and with the
  error of the build before anything is solved; else it solves once, logs the status and
  extracts.
\<close>

definition run :: "(lp \<Rightarrow> lp_status \<times> (var \<Rightarrow> real)) \<Rightarrow> workbook \<Rightarrow> error + (string option \<times> results)" where
  "run solver wb =
     (case schema_check wb of
        Some e \<Rightarrow> Inl e
      | None \<Rightarrow>
          (let n = normalise wb
           in case build n of
                Inl e \<Rightarrow> Inl e
              | Inr m \<Rightarrow>
                  (let (st, vals) = solver m;
                       val = pulp_value m vals;
                       logged = status_log st
                   in case extract_results n val of
                        Inl e \<Rightarrow> Inl e
                      | Inr res \<Rightarrow> Inr (logged, res))))"

section \<open>Auxiliary notions for the proofs\<close>

text \<open>
  All ordered pairs of a list that respect its order, and the travel term of the objective
  read off a solution. A characterisation of \<open>pairs\<close> and a reading of the objective
  are proved below.
\<close>

fun all_pairs :: "'a list \<Rightarrow> ('a \<times> 'a) list" where
  "all_pairs [] = []"
| "all_pairs (x # xs) = map (Pair x) xs @ all_pairs xs"

text \<open>The driver key of a variable, and the declared variables of the model under a key.\<close>

fun driver_of :: "var \<Rightarrow> string option" where
  "driver_of (X j i) = Some j"
| "driver_of (Y j i) = Some j"
| "driver_of (U j) = Some j"
| "driver_of (W j idx) = Some j"
| "driver_of (Uber i) = None"

definition driver_variables :: "lp \<Rightarrow> string \<Rightarrow> decl list" where
  "driver_variables m j = filter (\<lambda>d. driver_of (decl_var d) = Some j) (lp_variables m)"

definition travel_total :: "workbook \<Rightarrow> (var \<Rightarrow> int) \<Rightarrow> real" where
  "travel_total wb sol =
     (let P = pairs (dist_df wb) (locations (students_location wb)) in
      sum_list (map (\<lambda>j. sum_list (map (\<lambda>idx.
          num_value (travel (dist_df wb) (fst (P ! idx)) (snd (P ! idx))) * of_int (sol (W j idx)))
        [0 ..< length P])) (drivers (drivers_rows wb))))"

section \<open>Concrete inputs\<close>

text \<open>
  Two locations with one student each and two drivers of capacity two, the travel time
  between the locations a parameter; three solutions of its model: one driver serving both
  stops, one driver serving one stop with the other student left to the ride service, and
  one driver per stop.
\<close>

definition wb_pair :: "real \<Rightarrow> workbook" where
  "wb_pair t =
     \<lparr> sheet_names = [''students'', ''drivers'', ''campus_distance''],
       students_columns = [''student_name'', ''location''],
       students_location = [Some ''A'', Some ''B''],
       drivers_columns = [''driver_name'', ''capacity''],
       drivers_rows = [(''d1'', 2), (''d2'', 2)],
       dist_df = \<lparr> d_index = [''A'', ''B''], d_columns = [''A'', ''B''],
                   d_cell = (\<lambda>i j. if i = j then Some 0 else Some t) \<rparr> \<rparr>"

fun sol_both :: "var \<Rightarrow> int" where
  "sol_both (X j i) = (if j = ''d1'' then 1 else 0)"
| "sol_both (Y j i) = (if j = ''d1'' then 1 else 0)"
| "sol_both (U j) = (if j = ''d1'' then 1 else 0)"
| "sol_both (W j idx) = (if j = ''d1'' \<and> idx = 0 then 1 else 0)"
| "sol_both (Uber i) = 0"

fun sol_uber :: "var \<Rightarrow> int" where
  "sol_uber (X j i) = (if j = ''d1'' \<and> i = ''A'' then 1 else 0)"
| "sol_uber (Y j i) = (if j = ''d1'' \<and> i = ''A'' then 1 else 0)"
| "sol_uber (U j) = (if j = ''d1'' then 1 else 0)"
| "sol_uber (W j idx) = 0"
| "sol_uber (Uber i) = (if i = ''B'' then 1 else 0)"

fun sol_split :: "var \<Rightarrow> int" where
  "sol_split (X j i) = (if j = ''d1'' \<and> i = ''A'' \<or> j = ''d2'' \<and> i = ''B'' then 1 else 0)"
| "sol_split (Y j i) = (if j = ''d1'' \<and> i = ''A'' \<or> j = ''d2'' \<and> i = ''B'' then 1 else 0)"
| "sol_split (U j) = (if j = ''d1'' \<or> j = ''d2'' then 1 else 0)"
| "sol_split (W j idx) = 0"
| "sol_split (Uber i) = 0"

text \<open>
  A workbook whose distance sheet is empty, a drivers table with a repeated name and one
  with distinct names, a workbook without the name columns, a distance table with
  different times in the two directions, the two-location workbook with the repeated name
  in its drivers table, and a solver that reports infeasibility with every variable at zero.
\<close>

definition rows_two :: "(string \<times> int) list" where
  "rows_two = [(''d1'', 2), (''d2'', 3)]"


definition wb_isolated :: workbook where
  "wb_isolated =
     \<lparr> sheet_names = [''students'', ''drivers'', ''campus_distance''],
       students_columns = [''student_name'', ''location''],
       students_location = [Some ''A'', Some ''B''],
       drivers_columns = [''driver_name'', ''capacity''],
       drivers_rows = [(''d1'', 2)],
       dist_df = \<lparr> d_index = [], d_columns = [], d_cell = (\<lambda>i j. None) \<rparr> \<rparr>"

definition rows_dup :: "(string \<times> int) list" where
  "rows_dup = [(''Ann'', 2), (''Ann'', 5)]"

definition wb_no_names :: workbook where
  "wb_no_names =
     \<lparr> sheet_names = [''students'', ''drivers'', ''campus_distance''],
       students_columns = [''location''],
       students_location = [Some ''A''],
       drivers_columns = [''capacity''],
       drivers_rows = [(''3'', 3)],
       dist_df = \<lparr> d_index = [''A''], d_columns = [''A''], d_cell = (\<lambda>i j. Some 0) \<rparr> \<rparr>"

definition dist_oneway :: dist_table where
  "dist_oneway =
     \<lparr> d_index = [''A'', ''B''], d_columns = [''A'', ''B''],
       d_cell = (\<lambda>i j. if i = j then Some 0 else if i = ''A'' then Some 5 else Some 7) \<rparr>"

definition wb_dup :: workbook where
  "wb_dup = (wb_pair 4)\<lparr>drivers_rows := rows_dup\<rparr>"

definition solver_infeasible :: "lp \<Rightarrow> lp_status \<times> (var \<Rightarrow> real)" where
  "solver_infeasible m = (Infeasible, (\<lambda>v. 0))"


section \<open>Affine expressions and feasibility\<close>

lemma aff_value_var: "aff_value sol (aff_var v) = of_int (sol v)"
  by (simp add: aff_value_def aff_var_def)

lemma aff_value_const: "aff_value sol (aff_const c) = c"
  by (simp add: aff_value_def aff_const_def)

lemma aff_value_add: "aff_value sol (aff_add a b) = aff_value sol a + aff_value sol b"
  by (simp add: aff_value_def aff_add_def)

lemma aff_value_scale: "aff_value sol (aff_scale c a) = c * aff_value sol a"
proof -
  have "sum_list (map (\<lambda>(k, v). k * of_int (sol v)) (map (\<lambda>(k, v). (c * k, v)) ts))
        = c * sum_list (map (\<lambda>(k, v). k * of_int (sol v)) ts)" for ts :: "('a \<times> var) list"
    by (induction ts) (auto simp: algebra_simps)
  then show ?thesis
    by (simp add: aff_value_def aff_scale_def algebra_simps)
qed

lemma aff_value_lpSum: "aff_value sol (lpSum es) = sum_list (map (aff_value sol) es)"
  by (induction es) (simp_all add: lpSum_def aff_value_add aff_value_const)

lemmas aff_simps = aff_value_var aff_value_const aff_value_add aff_value_scale aff_value_lpSum

lemma feasible_constraint:
  "feasible m sol \<Longrightarrow> c \<in> set (lp_constraints m) \<Longrightarrow> holds sol c"
  by (simp add: feasible_def list_all_iff)

lemma feasible_domain:
  "feasible m sol \<Longrightarrow> d \<in> set (lp_variables m) \<Longrightarrow> in_domain sol d"
  by (simp add: feasible_def list_all_iff)

lemma demand_cover_holds:
  assumes "feasible (formulation n) sol" "i \<in> set (i_locations n)"
  shows "sum_list (map (\<lambda>j. sol (Y j i)) (i_drivers n)) + sol (Uber i) = the (i_demand n i)"
proof -
  let ?c = "\<lparr> c_name = ''demand_cover_'' @ i,
           c_lhs = aff_add (lpSum (map (\<lambda>j. aff_var (Y j i)) (i_drivers n))) (aff_var (Uber i)),
           c_sense = EQ,
           c_rhs = aff_const (the (i_demand n i)) \<rparr>"
  have "?c \<in> set (lp_constraints (formulation n))"
    using assms(2) by (auto simp: formulation_def demand_cover_def)
  then have "holds sol ?c" using assms(1) feasible_constraint by blast
  then show ?thesis
    by (simp add: holds_def aff_simps comp_def)
qed

lemma demand_locations:
  "i \<in> set (locations col) \<Longrightarrow> demand col i = Some (int (count_list col (Some i)))"
  unfolding demand_def locations_def demand_series_def
  by (induction "sort (remdups (List.map_filter id col))") (auto simp: comp_def map_of_map_restrict)

lemma X_binary:
  assumes "feasible (formulation n) sol" "j \<in> set (i_drivers n)" "i \<in> set (i_locations n)"
  shows "sol (X j i) = 0 \<or> sol (X j i) = 1"
proof -
  have "Decl (X j i) Binary None \<in> set (lp_variables (formulation n))"
    using assms(2,3) by (auto simp: formulation_def declarations_def dict_keys_def)
  from feasible_domain [OF assms(1) this] show ?thesis by simp
qed

lemma U_binary:
  assumes "feasible (formulation n) sol" "j \<in> set (i_drivers n)"
  shows "sol (U j) = 0 \<or> sol (U j) = 1"
proof -
  have "Decl (U j) Binary None \<in> set (lp_variables (formulation n))"
    using assms(2) by (auto simp: formulation_def declarations_def dict_keys_def)
  from feasible_domain [OF assms(1) this] show ?thesis by simp
qed

lemma W_binary:
  assumes "feasible (formulation n) sol" "j \<in> set (i_drivers n)" "idx < length (i_pairs n)"
  shows "sol (W j idx) = 0 \<or> sol (W j idx) = 1"
proof -
  have "Decl (W j idx) Binary None \<in> set (lp_variables (formulation n))"
    using assms(2,3) by (force simp: formulation_def declarations_def dict_keys_def)
  from feasible_domain [OF assms(1) this] show ?thesis by simp
qed

lemma Y_nonneg:
  assumes "feasible (formulation n) sol" "j \<in> set (i_drivers n)" "i \<in> set (i_locations n)"
  shows "0 \<le> sol (Y j i)"
proof -
  have "Decl (Y j i) Integer (Some 0) \<in> set (lp_variables (formulation n))"
    using assms(2,3) by (auto simp: formulation_def declarations_def dict_keys_def)
  from feasible_domain [OF assms(1) this] show ?thesis by simp
qed

lemma Uber_nonneg:
  assumes "feasible (formulation n) sol" "i \<in> set (i_locations n)"
  shows "0 \<le> sol (Uber i)"
proof -
  have "Decl (Uber i) Integer (Some 0) \<in> set (lp_variables (formulation n))"
    using assms(2) by (auto simp: formulation_def declarations_def dict_keys_def)
  from feasible_domain [OF assms(1) this] show ?thesis by simp
qed

lemma max2stops_holds:
  assumes "feasible (formulation n) sol" "j \<in> set (i_drivers n)"
  shows "sum_list (map (\<lambda>i. sol (X j i)) (i_locations n)) \<le> 2"
proof -
  let ?c = "\<lparr> c_name = ''max2stops_'' @ j,
           c_lhs = lpSum (map (\<lambda>i. aff_var (X j i)) (i_locations n)), c_sense = LE,
           c_rhs = aff_const 2 \<rparr>"
  have "?c \<in> set (lp_constraints (formulation n))"
    using assms(2) by (auto simp: formulation_def max2stops_def)
  then have "holds sol ?c" using assms(1) feasible_constraint by blast
  then show ?thesis
    by (simp add: holds_def aff_simps comp_def)
qed

lemma pair_link_holds:
  assumes "feasible (formulation n) sol" "j \<in> set (i_drivers n)" "idx < length (i_pairs n)"
    and "i_pairs n ! idx = (i, k)"
  shows "sol (W j idx) \<le> sol (X j i)" "sol (W j idx) \<le> sol (X j k)"
    "sol (X j i) + sol (X j k) - 1 \<le> sol (W j idx)"
proof -
  let ?c1 = "\<lparr> c_name = ''w_le_x1_'' @ j @ ''_'' @ i @ ''_'' @ k,
              c_lhs = aff_var (W j idx), c_sense = LE, c_rhs = aff_var (X j i) \<rparr>"
  let ?c2 = "\<lparr> c_name = ''w_le_x2_'' @ j @ ''_'' @ i @ ''_'' @ k,
              c_lhs = aff_var (W j idx), c_sense = LE, c_rhs = aff_var (X j k) \<rparr>"
  let ?c3 = "\<lparr> c_name = ''w_ge_summinus1_'' @ j @ ''_'' @ i @ ''_'' @ k,
              c_lhs = aff_var (W j idx), c_sense = GE,
              c_rhs = aff_add (aff_add (aff_var (X j i)) (aff_var (X j k))) (aff_const (- 1)) \<rparr>"
  have "set [?c1, ?c2, ?c3] \<subseteq> set (pair_link n)"
    unfolding pair_link_def using assms(2,3,4)
    by (auto simp: Let_def intro!: bexI [of _ j] bexI [of _ idx])
  then have "set [?c1, ?c2, ?c3] \<subseteq> set (lp_constraints (formulation n))"
    by (auto simp: formulation_def)
  then have "holds sol ?c1" "holds sol ?c2" "holds sol ?c3"
    using assms(1) feasible_constraint by auto
  then show "sol (W j idx) \<le> sol (X j i)" "sol (W j idx) \<le> sol (X j k)"
    "sol (X j i) + sol (X j k) - 1 \<le> sol (W j idx)"
    by (simp_all add: holds_def aff_simps)
qed

section \<open>The pair list\<close>

lemma upt_Suc_shift: "[Suc a ..< Suc n] = map Suc [a ..< n]"
  by (simp add: map_Suc_upt)

lemma pairs_all_pairs: "pairs d locs = all_pairs locs"
proof -
  have "concat (map (\<lambda>a. concat (map (\<lambda>b. [(locs ! a, locs ! b)]) [a + 1 ..< length locs]))
          [0 ..< length locs]) = all_pairs locs"
  proof (induction locs)
    case Nil
    show ?case by simp
  next
    case (Cons x xs)
    have row: "concat (map (\<lambda>b. [((x # xs) ! 0, (x # xs) ! b)]) [0 + 1 ..< length (x # xs)])
                 = map (Pair x) xs"
    proof -
      have "[0 + 1 ..< length (x # xs)] = map Suc [0 ..< length xs]"
        by (simp add: map_Suc_upt)
      then have "concat (map (\<lambda>b. [((x # xs) ! 0, (x # xs) ! b)]) [0 + 1 ..< length (x # xs)])
                 = map (\<lambda>b. (x, xs ! b)) [0 ..< length xs]"
        by (simp add: comp_def del: upt_Suc)
      also have "\<dots> = map (Pair x) (map (nth xs) [0 ..< length xs])"
        by (simp add: comp_def)
      finally show ?thesis by (simp add: map_nth)
    qed
    have rest: "concat (map (\<lambda>a. concat (map (\<lambda>b. [((x # xs) ! a, (x # xs) ! b)])
                  [a + 1 ..< length (x # xs)])) (map Suc [0 ..< length xs]))
                = concat (map (\<lambda>a. concat (map (\<lambda>b. [(xs ! a, xs ! b)]) [a + 1 ..< length xs]))
                    [0 ..< length xs])"
    proof -
      have "concat (map (\<lambda>b. [((x # xs) ! Suc a, (x # xs) ! b)]) [Suc a + 1 ..< length (x # xs)])
            = concat (map (\<lambda>b. [(xs ! a, xs ! b)]) [a + 1 ..< length xs])" for a
      proof -
        have "[Suc a + 1 ..< length (x # xs)] = map Suc [a + 1 ..< length xs]"
          by (simp add: map_Suc_upt)
        then show ?thesis by (simp add: comp_def del: upt_Suc)
      qed
      then show ?thesis by (simp add: comp_def del: upt_Suc)
    qed
    have "[0 ..< length (x # xs)] = 0 # map Suc [0 ..< length xs]"
      by (simp add: map_Suc_upt upt_conv_Cons del: upt_Suc)
    then show ?case
      using row rest Cons.IH by (simp del: upt_Suc)
  qed
  then show ?thesis
    by (simp add: pairs_def is_not_None_def Let_def)
qed

lemma all_pairs_subset: "(i, k) \<in> set (all_pairs xs) \<Longrightarrow> i \<in> set xs \<and> k \<in> set xs"
  by (induction xs) auto

lemma pair_sum_identity:
  fixes x :: "'a \<Rightarrow> int"
  assumes "\<forall>i \<in> set xs. x i = 0 \<or> x i = 1"
  shows "2 * sum_list (map (\<lambda>(i, k). x i * x k) (all_pairs xs))
         = (sum_list (map x xs))\<^sup>2 - sum_list (map x xs)"
  using assms
proof (induction xs)
  case Nil
  show ?case by simp
next
  case (Cons a xs)
  have sq: "x a * x a = x a" using Cons.prems by auto
  have row: "sum_list (map (\<lambda>(i, k). x i * x k) (map (Pair a) xs)) = x a * sum_list (map x xs)"
    by (simp add: comp_def sum_list_const_mult)
  have IH: "2 * sum_list (map (\<lambda>(i, k). x i * x k) (all_pairs xs))
         = (sum_list (map x xs))\<^sup>2 - sum_list (map x xs)"
    using Cons by simp
  show ?case
    using sq row IH by (simp add: power2_eq_square algebra_simps)
qed

lemma pair_sum_le_1:
  fixes x :: "'a \<Rightarrow> int"
  assumes "\<forall>i \<in> set xs. x i = 0 \<or> x i = 1" "sum_list (map x xs) \<le> 2"
  shows "sum_list (map (\<lambda>(i, k). x i * x k) (all_pairs xs)) \<le> 1"
proof -
  let ?S = "sum_list (map x xs)"
  have "0 \<le> ?S" using assms(1) by (intro sum_list_nonneg) auto
  with assms(2) have "?S = 0 \<or> ?S = 1 \<or> ?S = 2" by arith
  then have "?S\<^sup>2 - ?S \<le> 2" by auto
  with pair_sum_identity [OF assms(1)] show ?thesis by simp
qed

lemma normalise_simps:
  "i_drivers (normalise wb) = drivers (drivers_rows wb)"
  "i_locations (normalise wb) = locations (students_location wb)"
  "i_pairs (normalise wb) = pairs (dist_df wb) (locations (students_location wb))"
  "i_travel (normalise wb) = travel (dist_df wb)"
  "i_demand (normalise wb) = demand (students_location wb)"
  "i_caps (normalise wb) = driver_caps (drivers_rows wb)"
  by (simp_all add: normalise_def)

lemma map_index: "map (\<lambda>idx. g (P ! idx)) [0 ..< length P] = map g P"
proof -
  have "map (\<lambda>idx. g (P ! idx)) [0 ..< length P] = map g (map (nth P) [0 ..< length P])"
    by (simp add: comp_def)
  then show ?thesis by (simp add: map_nth)
qed

lemma W_sum_le_1:
  assumes feas: "feasible (model wb) sol" and j: "j \<in> set (drivers (drivers_rows wb))"
  shows "sum_list (map (\<lambda>idx. sol (W j idx))
           [0 ..< length (pairs (dist_df wb) (locations (students_location wb)))]) \<le> 1"
proof -
  let ?n = "normalise wb"
  let ?L = "locations (students_location wb)"
  let ?P = "pairs (dist_df wb) ?L"
  let ?x = "\<lambda>i. sol (X j i)"
  have feas': "feasible (formulation ?n) sol" using feas by (simp add: model_def)
  have j': "j \<in> set (i_drivers ?n)" using j by (simp add: normalise_simps)
  have bin: "\<forall>i \<in> set ?L. ?x i = 0 \<or> ?x i = 1"
    using X_binary [OF feas' j'] by (simp add: normalise_simps)
  have stops: "sum_list (map ?x ?L) \<le> 2"
    using max2stops_holds [OF feas' j'] by (simp add: normalise_simps)
  have le: "sol (W j idx) \<le> (\<lambda>(i, k). ?x i * ?x k) (?P ! idx)" if "idx \<in> set [0 ..< length ?P]" for idx
  proof -
    obtain i k where ik: "?P ! idx = (i, k)" by (cases "?P ! idx")
    have idx: "idx < length (i_pairs ?n)" using that by (simp add: normalise_simps)
    have mem: "(i, k) \<in> set (all_pairs ?L)"
      using that ik nth_mem [of idx ?P] by (simp add: pairs_all_pairs)
    then have "i \<in> set ?L" "k \<in> set ?L" using all_pairs_subset [of i k ?L] by simp_all
    then have bi: "?x i = 0 \<or> ?x i = 1" and bk: "?x k = 0 \<or> ?x k = 1" using bin by auto
    have ik': "i_pairs ?n ! idx = (i, k)" using ik by (simp add: normalise_simps)
    have "sol (W j idx) \<le> ?x i" "sol (W j idx) \<le> ?x k"
      using pair_link_holds(1,2) [OF feas' j' idx ik'] by auto
    moreover have "sol (W j idx) = 0 \<or> sol (W j idx) = 1"
      using W_binary [OF feas' j' idx] .
    ultimately have "sol (W j idx) \<le> ?x i * ?x k" using bi bk by auto
    then show ?thesis using ik by simp
  qed
  have "sum_list (map (\<lambda>idx. sol (W j idx)) [0 ..< length ?P])
        \<le> sum_list (map (\<lambda>idx. (\<lambda>(i, k). ?x i * ?x k) (?P ! idx)) [0 ..< length ?P])"
    by (rule sum_list_mono) (rule le)
  also have "\<dots> = sum_list (map (\<lambda>(i, k). ?x i * ?x k) ?P)"
    by (rule arg_cong [OF map_index])
  also have "\<dots> \<le> 1"
    using pair_sum_le_1 [OF bin stops] by (simp add: pairs_all_pairs)
  finally show ?thesis .
qed

section \<open>The objective and its tiers\<close>

lemma of_int_sum_list: "of_int (sum_list xs) = sum_list (map of_int xs)"
  by (induction xs) simp_all

lemma sum_list_concat_map: "sum_list (concat xss) = sum_list (map sum_list xss)"
  by (induction xss) simp_all

lemma objective_split:
  "objective_value (model wb) sol =
     of_int BIG_UBER * of_int (uber_total wb sol)
     + of_int BIG_DRIVER * of_int (drivers_used wb sol)
     + of_int SMALL_TRIP * travel_total wb sol"
proof -
  have u: "aff_value sol (uber_penalty (normalise wb)) = of_int (uber_total wb sol)"
    by (simp add: uber_penalty_def uber_total_def aff_simps comp_def normalise_simps of_int_sum_list)
  have d: "aff_value sol (total_drivers_used (normalise wb)) = of_int (drivers_used wb sol)"
    by (simp add: total_drivers_used_def drivers_used_def aff_simps comp_def normalise_simps
        of_int_sum_list)
  have t: "aff_value sol (total_travel_time (normalise wb)) = travel_total wb sol"
    by (simp add: total_travel_time_def travel_total_def aff_simps comp_def normalise_simps
        sum_list_concat_map map_concat Let_def)
  show ?thesis
    by (simp add: objective_value_def model_def formulation_def objective_def aff_simps u d t)
qed

lemma drivers_used_bounds:
  assumes "feasible (model wb) sol"
  shows "0 \<le> drivers_used wb sol" "drivers_used wb sol \<le> int (length (drivers (drivers_rows wb)))"
proof -
  have feas': "feasible (formulation (normalise wb)) sol" using assms by (simp add: model_def)
  have b: "0 \<le> sol (U j) \<and> sol (U j) \<le> 1" if "j \<in> set (drivers (drivers_rows wb))" for j
    using U_binary [OF feas', of j] that by (auto simp: normalise_simps)
  show "0 \<le> drivers_used wb sol"
    unfolding drivers_used_def using b by (intro sum_list_nonneg) auto
  have "sum_list (map (\<lambda>j. sol (U j)) (drivers (drivers_rows wb)))
        \<le> sum_list (map (\<lambda>j. 1) (drivers (drivers_rows wb)))"
    using b by (intro sum_list_mono) auto
  then show "drivers_used wb sol \<le> int (length (drivers (drivers_rows wb)))"
    by (simp add: drivers_used_def sum_list_triv)
qed

lemma uber_total_nonneg:
  assumes "feasible (model wb) sol"
  shows "0 \<le> uber_total wb sol"
proof -
  have feas': "feasible (formulation (normalise wb)) sol" using assms by (simp add: model_def)
  show ?thesis
    unfolding uber_total_def using Uber_nonneg [OF feas'] 
    by (intro sum_list_nonneg) (auto simp: normalise_simps)
qed

lemma travel_total_bounds:
  assumes feas: "feasible (model wb) sol"
    and tb: "\<forall>(i, k) \<in> set (pairs (dist_df wb) (locations (students_location wb))).
               0 \<le> num_value (travel (dist_df wb) i k) \<and> num_value (travel (dist_df wb) i k) \<le> tmax"
    and tmax: "0 \<le> tmax"
  shows "0 \<le> travel_total wb sol"
    "travel_total wb sol \<le> of_nat (length (drivers (drivers_rows wb))) * tmax"
proof -
  let ?P = "pairs (dist_df wb) (locations (students_location wb))"
  let ?D = "drivers (drivers_rows wb)"
  let ?t = "\<lambda>idx. num_value (travel (dist_df wb) (fst (?P ! idx)) (snd (?P ! idx)))"
  let ?row = "\<lambda>j. sum_list (map (\<lambda>idx. ?t idx * of_int (sol (W j idx))) [0 ..< length ?P])"
  have feas': "feasible (formulation (normalise wb)) sol" using feas by (simp add: model_def)
  have t: "0 \<le> ?t idx \<and> ?t idx \<le> tmax" if "idx < length ?P" for idx
    using tb nth_mem [OF that] by (auto simp: case_prod_beta)
  have w: "sol (W j idx) = 0 \<or> sol (W j idx) = 1" if "j \<in> set ?D" "idx < length ?P" for j idx
    using W_binary [OF feas', of j idx] that by (simp add: normalise_simps)
  have row0: "0 \<le> ?row j" if "j \<in> set ?D" for j
  proof (rule sum_list_nonneg)
    fix v assume "v \<in> set (map (\<lambda>idx. ?t idx * of_int (sol (W j idx))) [0 ..< length ?P])"
    then obtain idx where "idx < length ?P" "v = ?t idx * of_int (sol (W j idx))" by auto
    then show "0 \<le> v" using t [of idx] w [OF that, of idx] by auto
  qed
  have row1: "?row j \<le> tmax" if "j \<in> set ?D" for j
  proof -
    have "?row j \<le> sum_list (map (\<lambda>idx. tmax * of_int (sol (W j idx))) [0 ..< length ?P])"
    proof (rule sum_list_mono)
      fix idx assume "idx \<in> set [0 ..< length ?P]"
      then have "idx < length ?P" by simp
      then show "?t idx * of_int (sol (W j idx)) \<le> tmax * of_int (sol (W j idx))"
        using t [of idx] w [OF that, of idx] by auto
    qed
    also have "\<dots> = tmax * of_int (sum_list (map (\<lambda>idx. sol (W j idx)) [0 ..< length ?P]))"
      by (simp add: sum_list_const_mult of_int_sum_list comp_def)
    also have "\<dots> \<le> tmax * 1"
    proof (rule mult_left_mono)
      show "real_of_int (sum_list (map (\<lambda>idx. sol (W j idx)) [0 ..< length ?P])) \<le> 1"
        using W_sum_le_1 [OF feas that] by linarith
    qed (rule tmax)
    finally show ?thesis by simp
  qed
  show "0 \<le> travel_total wb sol"
    unfolding travel_total_def Let_def using row0 by (intro sum_list_nonneg) auto
  have "sum_list (map ?row ?D) \<le> sum_list (map (\<lambda>j. tmax) ?D)"
    using row1 by (intro sum_list_mono) auto
  then show "travel_total wb sol \<le> of_nat (length ?D) * tmax"
    by (simp add: travel_total_def Let_def sum_list_triv)
qed

section \<open>The concrete inputs evaluated\<close>

lemmas model_unfold = model_def normalise_def drivers_def cap_series_def driver_caps_def pairs_def
  is_not_None_def travel_def Let_def feasible_def formulation_def declarations_def dict_keys_def cap_link_def
  driver_cap_def use_def_def max2stops_def pair_link_def demand_cover_def holds_def aff_value_def
  aff_var_def aff_const_def aff_add_def aff_scale_def lpSum_def demand_def demand_series_def
  List.map_filter_def locations_def BIG_DISTANCE_def

lemmas objective_unfold = objective_value_def objective_def uber_penalty_def
  total_drivers_used_def total_travel_time_def BIG_UBER_def BIG_DRIVER_def SMALL_TRIP_def

lemma wb_pair_locations: "locations (students_location (wb_pair t)) = [''A'', ''B'']"
  by (simp add: wb_pair_def model_unfold)

lemma wb_pair_pairs:
  "pairs (dist_df (wb_pair t)) (locations (students_location (wb_pair t))) = [(''A'', ''B'')]"
  by (simp add: wb_pair_locations pairs_all_pairs)

lemma wb_pair_drivers: "drivers (drivers_rows (wb_pair t)) = [''d1'', ''d2'']"
  by (simp add: wb_pair_def drivers_def)

lemma wb_pair_travel: "travel (dist_df (wb_pair t)) ''A'' ''B'' = FloatObj t"
  by (simp add: wb_pair_def travel_def)

lemma feasible_both: "feasible (model (wb_pair t)) sol_both"
  by (simp add: wb_pair_def model_unfold)

lemma feasible_uber: "feasible (model (wb_pair t)) sol_uber"
  by (simp add: wb_pair_def model_unfold)

lemma feasible_split: "feasible (model (wb_pair t)) sol_split"
  by (simp add: wb_pair_def model_unfold)

lemma objective_both: "objective_value (model (wb_pair t)) sol_both = 100000 + 10000 * t"
  by (simp add: wb_pair_def model_unfold objective_unfold)

lemma objective_uber: "objective_value (model (wb_pair t)) sol_uber = 100100000"
  by (simp add: wb_pair_def model_unfold objective_unfold)

lemma objective_split': "objective_value (model (wb_pair t)) sol_split = 200000"
  by (simp add: wb_pair_def model_unfold objective_unfold)

lemma tiers_both: "uber_total (wb_pair t) sol_both = 0" "drivers_used (wb_pair t) sol_both = 1"
  by (simp_all add: uber_total_def drivers_used_def wb_pair_locations wb_pair_drivers)

lemma tiers_uber: "uber_total (wb_pair t) sol_uber = 1" "drivers_used (wb_pair t) sol_uber = 1"
  by (simp_all add: uber_total_def drivers_used_def wb_pair_locations wb_pair_drivers)

lemma tiers_split: "uber_total (wb_pair t) sol_split = 0" "drivers_used (wb_pair t) sol_split = 2"
  by (simp_all add: uber_total_def drivers_used_def wb_pair_locations wb_pair_drivers)

section \<open>The capacity dict\<close>

lemma driver_caps_map_of: "driver_caps rows = map_of (rev rows)"
proof (induction rows rule: rev_induct)
  case Nil
  show ?case by (simp add: driver_caps_def drivers_def)
next
  case (snoc x xs)
  have "foldl (\<lambda>m i. m(map fst (xs @ [x]) ! i \<mapsto> map snd (xs @ [x]) ! i)) Map.empty [0 ..< length xs]
        = foldl (\<lambda>m i. m(map fst xs ! i \<mapsto> map snd xs ! i)) Map.empty [0 ..< length xs]"
    by (rule foldl_cong) (simp_all add: nth_append)
  then show ?case
    using snoc.IH by (simp add: driver_caps_def drivers_def cap_series_def nth_append)
qed

lemma map_of_rev_last:
  "k \<in> fst ` set rows \<Longrightarrow>
   map_of (rev rows) k = Some (snd (last (filter (\<lambda>row. fst row = k) rows)))"
  by (induction rows rule: rev_induct) auto


section \<open>Errors of the extraction\<close>

lemma driver_assignments_error:
  "driver_assignments n val js = Inl e \<Longrightarrow> e = TypeError"
  by (induction js) (auto simp: py_int_def split: option.splits sum.splits)

lemma extract_results_error: "extract_results n val = Inl e \<Longrightarrow> e = TypeError"
  by (auto simp: extract_results_def split: sum.splits dest: driver_assignments_error)


text \<open>When every usage flag has a value the extraction returns its three tables.\<close>

lemma driver_assignments_defined:
  "\<forall>j \<in> set js. val (U j) \<noteq> None \<Longrightarrow> \<exists>rows. driver_assignments n val js = Inr rows"
  by (induction js) (auto simp: py_int_def split: option.splits)

lemma extract_results_defined:
  "\<forall>j \<in> set (i_drivers n). val (U j) \<noteq> None \<Longrightarrow> \<exists>res. extract_results n val = Inr res"
  using driver_assignments_defined [of "i_drivers n" val n]
  by (auto simp: extract_results_def)

section \<open>The travel table\<close>

text \<open>
  An entry is the sentinel exactly when neither direction is resolvable, and the two
  entries of a pair agree unless the sheet holds different cells in the two directions.
\<close>

lemma travel_sentinel_iff:
  "travel d i j = IntObj BIG_DISTANCE \<longleftrightarrow> \<not> resolvable d i j \<and> \<not> resolvable d j i"
  by (auto simp: travel_def resolvable_def Let_def split: option.splits)

lemma travel_symmetric_when_consistent:
  assumes "resolvable d i j \<Longrightarrow> resolvable d j i \<Longrightarrow> d_cell d i j = d_cell d j i"
  shows "travel d i j = travel d j i"
  using assms by (auto simp: travel_def resolvable_def Let_def split: option.splits)

section \<open>Adding the constraints\<close>

lemma add_constraints_iff:
  "add_constraints held cs =
     (if distinct (map (\<lambda>c. pulp_name (c_name c)) cs)
         \<and> set (map (\<lambda>c. pulp_name (c_name c)) cs) \<inter> set (map c_name held) = {}
      then Inr (held @ map (\<lambda>c. c\<lparr>c_name := pulp_name (c_name c)\<rparr>) cs)
      else Inl PulpError)"
proof (induction cs arbitrary: held)
  case Nil
  show ?case by simp
next
  case (Cons c cs)
  show ?case
  proof (cases "pulp_name (c_name c) \<in> set (map c_name held)")
    case True
    then show ?thesis by (auto simp: Let_def)
  next
    case False
    then show ?thesis
      unfolding add_constraints.simps Let_def Cons.IH by auto
  qed
qed

lemma build_iff:
  "build n =
     (if distinct (map (\<lambda>c. pulp_name (c_name c)) (lp_constraints (formulation n)))
      then Inr ((formulation n)
             \<lparr>lp_constraints :=
                map (\<lambda>c. c\<lparr>c_name := pulp_name (c_name c)\<rparr>) (lp_constraints (formulation n))\<rparr>)
      else Inl PulpError)"
  by (simp add: build_def add_constraints_iff)

lemma build_error: "build n = Inl e \<Longrightarrow> e = PulpError"
  by (auto simp: build_iff split: if_splits)


lemma holds_renamed: "holds sol (c\<lparr>c_name := x\<rparr>) = holds sol c"
  by (simp add: holds_def split: sense.splits)

lemma build_feasible: "build n = Inr m \<Longrightarrow> feasible m sol = feasible (formulation n) sol"
  by (auto simp: build_iff feasible_def list_all_iff holds_renamed split: if_splits)

lemma build_objective: "build n = Inr m \<Longrightarrow> lp_objective m = lp_objective (formulation n)"
  by (auto simp: build_iff split: if_splits)

text \<open>
  Where the build succeeds, the built problem has the feasible solutions and the objective
  values of the model.
\<close>

lemma built_problem_is_model:
  assumes "build (normalise wb) = Inr m"
  shows "feasible m sol = feasible (model wb) sol"
    and "objective_value m sol = objective_value (model wb) sol"
  using build_feasible [OF assms] build_objective [OF assms]
  by (simp_all add: model_def objective_value_def)

lemma repeated_driver_stops_build:
  assumes "\<not> distinct (i_drivers n)"
  shows "build n = Inl PulpError"
proof -
  let ?pn = "\<lambda>c. pulp_name (c_name c)"
  have "map ?pn (driver_cap n) = map (\<lambda>j. pulp_name (''driver_cap_'' @ j)) (i_drivers n)"
    by (simp add: driver_cap_def comp_def)
  then have "\<not> distinct (map ?pn (driver_cap n))"
    using assms by (simp add: distinct_map)
  then have "\<not> distinct (map ?pn (lp_constraints (formulation n)))"
    by (simp add: formulation_def)
  then show ?thesis by (simp add: build_iff)
qed

section \<open>The declared variables\<close>

lemma distinct_dict_keys: "distinct (dict_keys xs)"
  by (simp add: dict_keys_def)

lemma set_dict_keys: "set (dict_keys xs) = set xs"
  by (simp add: dict_keys_def)

lemma concat_map_product:
  "concat (map (\<lambda>j. map (\<lambda>i. f j i) ys) xs) = map (\<lambda>(j, i). f j i) (List.product xs ys)"
  by (induction xs) (simp_all add: comp_def)

lemma declared_vars:
  "map decl_var (declarations n) =
     map (\<lambda>(j, i). X j i) (List.product (dict_keys (i_drivers n)) (dict_keys (i_locations n)))
     @ map (\<lambda>(j, i). Y j i) (List.product (dict_keys (i_drivers n)) (dict_keys (i_locations n)))
     @ map U (dict_keys (i_drivers n))
     @ map (\<lambda>(j, idx). W j idx) (List.product (dict_keys (i_drivers n)) [0 ..< length (i_pairs n)])
     @ map Uber (dict_keys (i_locations n))"
  by (simp add: declarations_def map_concat comp_def concat_map_product)

lemma distinct_declared_vars: "distinct (map decl_var (declarations n))"
proof -
  have dp: "distinct (List.product (dict_keys (i_drivers n)) (dict_keys (i_locations n)))"
    by (simp add: distinct_product distinct_dict_keys)
  have dw: "distinct (List.product (dict_keys (i_drivers n)) [0 ..< length (i_pairs n)])"
    by (simp add: distinct_product distinct_dict_keys)
  have x: "distinct (map (\<lambda>(j, i). X j i)
             (List.product (dict_keys (i_drivers n)) (dict_keys (i_locations n))))"
    using dp by (simp add: distinct_map inj_on_def)
  have y: "distinct (map (\<lambda>(j, i). Y j i)
             (List.product (dict_keys (i_drivers n)) (dict_keys (i_locations n))))"
    using dp by (simp add: distinct_map inj_on_def)
  have u: "distinct (map U (dict_keys (i_drivers n)))"
    by (simp add: distinct_map inj_on_def distinct_dict_keys)
  have w: "distinct (map (\<lambda>(j, idx). W j idx)
             (List.product (dict_keys (i_drivers n)) [0 ..< length (i_pairs n)]))"
    using dw by (simp add: distinct_map inj_on_def)
  have b: "distinct (map Uber (dict_keys (i_locations n)))"
    by (simp add: distinct_map inj_on_def distinct_dict_keys)
  show ?thesis
    unfolding declared_vars using x y u w b by (auto simp del: set_product)
qed

lemma used_flag_declared:
  "j \<in> set (i_drivers n) \<Longrightarrow> Decl (U j) Binary None \<in> set (declarations n)"
  by (auto simp: declarations_def set_dict_keys)







section \<open>The claims\<close>

text \<open>
  Claim C1 (pairs without a resolvable travel time get no pairing variable). The source
  announces the filter (``only allow pairs with valid distance'', ``no pairing allowed'')
  but tests the table entry against \<^verbatim>\<open>None\<close>, which it never is: the entry of
  an unresolved pair is the sentinel. On a workbook whose distance sheet is empty both
  locations are isolated, neither direction is resolvable, and yet the pair is in the pair
  list, its variable is declared for the driver, and it enters the objective with the
  sentinel as its travel time.
\<close>

theorem isolated_pair_instantiated:
  "locations (students_location wb_isolated) = [''A'', ''B'']
   \<and> isolated_locations (dist_df wb_isolated) (locations (students_location wb_isolated)) = [''A'', ''B'']
   \<and> \<not> resolvable (dist_df wb_isolated) ''A'' ''B'' \<and> \<not> resolvable (dist_df wb_isolated) ''B'' ''A''
   \<and> pairs (dist_df wb_isolated) (locations (students_location wb_isolated)) = [(''A'', ''B'')]
   \<and> Decl (W ''d1'' 0) Binary None \<in> set (lp_variables (model wb_isolated))
   \<and> (10 ^ 10, W ''d1'' 0) \<in> set (fst (lp_objective (model wb_isolated)))"
  by (simp add: wb_isolated_def model_unfold objective_unfold resolvable_def isolated_locations_def)

text \<open>The same input read for the pair alone.\<close>

theorem isolated_pair_instantiated_witness:
  "(''A'', ''B'') \<in> set (pairs (dist_df wb_isolated) (locations (students_location wb_isolated)))
   \<and> \<not> resolvable (dist_df wb_isolated) ''A'' ''B''"
proof -
  have p: "pairs (dist_df wb_isolated) (locations (students_location wb_isolated)) = [(''A'', ''B'')]"
    and r: "\<not> resolvable (dist_df wb_isolated) ''A'' ''B''"
    using isolated_pair_instantiated by blast+
  show ?thesis unfolding p using r by simp
qed

text \<open>
  Claim C3 (coverage). In every feasible solution of the built model, at every location
  the pickups of all entries of the driver list plus the ride-service leftover equal the
  number of students at that location.
\<close>

theorem demand_coverage:
  assumes "feasible (model wb) sol" and "i \<in> set (locations (students_location wb))"
  shows "sum_list (map (\<lambda>j. sol (Y j i)) (drivers (drivers_rows wb))) + sol (Uber i)
         = int (count_list (students_location wb) (Some i))"
proof -
  have "feasible (formulation (normalise wb)) sol" using assms(1) by (simp add: model_def)
  moreover have "i \<in> set (i_locations (normalise wb))" using assms(2) by (simp add: normalise_simps)
  ultimately have "sum_list (map (\<lambda>j. sol (Y j i)) (i_drivers (normalise wb))) + sol (Uber i)
      = the (i_demand (normalise wb) i)"
    by (rule demand_cover_holds)
  then show ?thesis
    using demand_locations [OF assms(2)] by (simp add: normalise_simps)
qed

text \<open>The coverage theorem applied to the two-stop solution at location A.\<close>

theorem demand_coverage_witness:
  "feasible (model (wb_pair 4)) sol_both \<and> ''A'' \<in> set (locations (students_location (wb_pair 4)))
   \<and> sum_list (map (\<lambda>j. sol_both (Y j ''A'')) (drivers (drivers_rows (wb_pair 4)))) + sol_both (Uber ''A'')
       = int (count_list (students_location (wb_pair 4)) (Some ''A''))"
proof -
  have i: "''A'' \<in> set (locations (students_location (wb_pair 4)))"
    by (simp add: wb_pair_locations)
  show ?thesis
    using demand_coverage [OF feasible_both i] feasible_both [of 4] i by simp
qed

text \<open>
  Claim C10 (leftover within demand). In every feasible solution the ride-service leftover
  of a location is at least zero and at most the number of students there.
\<close>

theorem uber_within_demand:
  assumes "feasible (model wb) sol" and "i \<in> set (locations (students_location wb))"
  shows "0 \<le> sol (Uber i) \<and> sol (Uber i) \<le> int (count_list (students_location wb) (Some i))"
proof -
  have feas': "feasible (formulation (normalise wb)) sol" using assms(1) by (simp add: model_def)
  have i': "i \<in> set (i_locations (normalise wb))" using assms(2) by (simp add: normalise_simps)
  have cover: "sum_list (map (\<lambda>j. sol (Y j i)) (i_drivers (normalise wb))) + sol (Uber i)
      = int (count_list (students_location wb) (Some i))"
    using demand_cover_holds [OF feas' i'] demand_locations [OF assms(2)]
    by (simp add: normalise_simps)
  have "0 \<le> sum_list (map (\<lambda>j. sol (Y j i)) (i_drivers (normalise wb)))"
    using Y_nonneg [OF feas' _ i'] by (intro sum_list_nonneg) auto
  with cover Uber_nonneg [OF feas' i'] show ?thesis by linarith
qed

text \<open>The bound applied to the solution that leaves the student at B to the ride service.\<close>

theorem uber_within_demand_witness:
  "feasible (model (wb_pair 4)) sol_uber \<and> ''B'' \<in> set (locations (students_location (wb_pair 4)))
   \<and> 0 \<le> sol_uber (Uber ''B'')
   \<and> sol_uber (Uber ''B'') \<le> int (count_list (students_location (wb_pair 4)) (Some ''B''))"
proof -
  have i: "''B'' \<in> set (locations (students_location (wb_pair 4)))"
    by (simp add: wb_pair_locations)
  show ?thesis
    using uber_within_demand [OF feasible_uber i] feasible_uber [of 4] i by simp
qed

text \<open>
  Claim C6 (pair consistency). In every feasible solution, for every driver and every
  entry of the pair list, the pair variable is one exactly when both visit flags are one.
\<close>

theorem pair_is_conjunction:
  assumes "feasible (model wb) sol" and "j \<in> set (drivers (drivers_rows wb))"
    and "idx < length (pairs (dist_df wb) (locations (students_location wb)))"
    and "pairs (dist_df wb) (locations (students_location wb)) ! idx = (i, k)"
  shows "sol (W j idx) = 1 \<longleftrightarrow> sol (X j i) = 1 \<and> sol (X j k) = 1"
proof -
  let ?n = "normalise wb"
  let ?L = "locations (students_location wb)"
  have feas': "feasible (formulation ?n) sol" using assms(1) by (simp add: model_def)
  have j': "j \<in> set (i_drivers ?n)" using assms(2) by (simp add: normalise_simps)
  have idx': "idx < length (i_pairs ?n)" using assms(3) by (simp add: normalise_simps)
  have ik': "i_pairs ?n ! idx = (i, k)" using assms(4) by (simp add: normalise_simps)
  have "(i, k) \<in> set (all_pairs ?L)"
    using nth_mem [OF assms(3)] assms(4) by (simp add: pairs_all_pairs)
  then have "i \<in> set (i_locations ?n)" "k \<in> set (i_locations ?n)"
    using all_pairs_subset [of i k ?L] by (simp_all add: normalise_simps)
  then have bi: "sol (X j i) = 0 \<or> sol (X j i) = 1" and bk: "sol (X j k) = 0 \<or> sol (X j k) = 1"
    using X_binary [OF feas' j'] by auto
  have bw: "sol (W j idx) = 0 \<or> sol (W j idx) = 1" using W_binary [OF feas' j' idx'] .
  note link = pair_link_holds [OF feas' j' idx' ik']
  show ?thesis using link bi bk bw by auto
qed

text \<open>The equivalence applied to driver d1 and the pair (A, B) of the two-stop solution.\<close>

theorem pair_is_conjunction_witness:
  "feasible (model (wb_pair 4)) sol_both \<and> ''d1'' \<in> set (drivers (drivers_rows (wb_pair 4)))
   \<and> 0 < length (pairs (dist_df (wb_pair 4)) (locations (students_location (wb_pair 4))))
   \<and> pairs (dist_df (wb_pair 4)) (locations (students_location (wb_pair 4))) ! 0 = (''A'', ''B'')
   \<and> (sol_both (W ''d1'' 0) = 1 \<longleftrightarrow> sol_both (X ''d1'' ''A'') = 1 \<and> sol_both (X ''d1'' ''B'') = 1)"
proof -
  have j: "''d1'' \<in> set (drivers (drivers_rows (wb_pair 4)))" by (simp add: wb_pair_drivers)
  have idx: "0 < length (pairs (dist_df (wb_pair 4)) (locations (students_location (wb_pair 4))))"
    by (simp add: wb_pair_pairs)
  have ik: "pairs (dist_df (wb_pair 4)) (locations (students_location (wb_pair 4))) ! 0 = (''A'', ''B'')"
    by (simp add: wb_pair_pairs)
  show ?thesis
    using pair_is_conjunction [OF feasible_both j idx ik] feasible_both [of 4] j idx ik by simp
qed

text \<open>
  Claim C2 (lexicographic dominance), as amended. The weights dominate only within a
  range: when every pair's travel time lies between zero and \<open>tmax\<close> and the number of
  driver rows times \<open>BIG_DRIVER + SMALL_TRIP * tmax\<close> is below \<open>BIG_UBER\<close>, a feasible
  solution with a smaller ride-service total has the smaller objective; when the number of
  driver rows times \<open>SMALL_TRIP * tmax\<close> is below \<open>BIG_DRIVER\<close>, of two feasible solutions
  with equal ride-service totals the one using fewer drivers has the smaller objective.
\<close>

theorem weighted_dominance:
  assumes "feasible (model wb) A" and "feasible (model wb) B"
    and "\<forall>(i, k) \<in> set (pairs (dist_df wb) (locations (students_location wb))).
           0 \<le> num_value (travel (dist_df wb) i k) \<and> num_value (travel (dist_df wb) i k) \<le> tmax"
    and "0 \<le> tmax"
  shows "(of_nat (length (drivers (drivers_rows wb))) * (of_int BIG_DRIVER + of_int SMALL_TRIP * tmax)
            < of_int BIG_UBER \<longrightarrow>
          uber_total wb A < uber_total wb B \<longrightarrow>
          objective_value (model wb) A < objective_value (model wb) B)
       \<and> (of_nat (length (drivers (drivers_rows wb))) * (of_int SMALL_TRIP * tmax)
            < of_int BIG_DRIVER \<longrightarrow>
          uber_total wb A = uber_total wb B \<longrightarrow> drivers_used wb A < drivers_used wb B \<longrightarrow>
          objective_value (model wb) A < objective_value (model wb) B)"
proof -
  let ?n = "real (length (drivers (drivers_rows wb)))"
  let ?WU = "real_of_int BIG_UBER" and ?WD = "real_of_int BIG_DRIVER" and ?WT = "real_of_int SMALL_TRIP"
  have WD: "0 \<le> ?WD" and WT: "0 \<le> ?WT" and WU: "0 \<le> ?WU"
    by (simp_all add: BIG_DRIVER_def SMALL_TRIP_def BIG_UBER_def)
  note tA = travel_total_bounds [OF assms(1) assms(3) assms(4)]
  note tB = travel_total_bounds [OF assms(2) assms(3) assms(4)]
  note dA = drivers_used_bounds [OF assms(1)]
  note dB = drivers_used_bounds [OF assms(2)]
  have travA: "?WT * travel_total wb A \<le> ?WT * (?n * tmax)"
    using tA(2) WT by (rule mult_left_mono)
  have travB: "0 \<le> ?WT * travel_total wb B"
    using WT tB(1) by (rule mult_nonneg_nonneg)
  have first: "objective_value (model wb) A < objective_value (model wb) B"
    if w: "?n * (?WD + ?WT * tmax) < ?WU" and u: "uber_total wb A < uber_total wb B"
  proof -
    have "real_of_int (drivers_used wb A) \<le> ?n" using dA(2) by linarith
    then have usedA: "?WD * real_of_int (drivers_used wb A) \<le> ?WD * ?n"
      using WD by (rule mult_left_mono)
    have "0 \<le> real_of_int (drivers_used wb B)" using dB(1) by simp
    then have usedB: "0 \<le> ?WD * real_of_int (drivers_used wb B)"
      using WD by simp
    have "real_of_int (uber_total wb A) + 1 \<le> real_of_int (uber_total wb B)" using u by linarith
    then have "?WU * (real_of_int (uber_total wb A) + 1) \<le> ?WU * real_of_int (uber_total wb B)"
      using WU by (rule mult_left_mono)
    then have ub: "?WU * real_of_int (uber_total wb A) + ?WU \<le> ?WU * real_of_int (uber_total wb B)"
      by (simp add: algebra_simps)
    have "?n * (?WD + ?WT * tmax) = ?WD * ?n + ?WT * (?n * tmax)" by (simp add: algebra_simps)
    with w have "?WD * ?n + ?WT * (?n * tmax) < ?WU" by simp
    with usedA travA usedB travB ub show ?thesis
      unfolding objective_split by linarith
  qed
  have second: "objective_value (model wb) A < objective_value (model wb) B"
    if w: "?n * (?WT * tmax) < ?WD" and u: "uber_total wb A = uber_total wb B"
      and d: "drivers_used wb A < drivers_used wb B"
  proof -
    have "real_of_int (drivers_used wb A) + 1 \<le> real_of_int (drivers_used wb B)" using d by linarith
    then have "?WD * (real_of_int (drivers_used wb A) + 1) \<le> ?WD * real_of_int (drivers_used wb B)"
      using WD by (rule mult_left_mono)
    then have db: "?WD * real_of_int (drivers_used wb A) + ?WD \<le> ?WD * real_of_int (drivers_used wb B)"
      by (simp add: algebra_simps)
    have "?n * (?WT * tmax) = ?WT * (?n * tmax)" by (simp add: algebra_simps)
    with w have "?WT * (?n * tmax) < ?WD" by simp
    with travA travB db show ?thesis
      unfolding objective_split u by linarith
  qed
  from first second show ?thesis by blast
qed

text \<open>
  Both parts applied to travel time 4: the two-stop solution against the one with a
  ride-service leftover, and against the one with a driver per stop.
\<close>

theorem weighted_dominance_witness:
  "feasible (model (wb_pair 4)) sol_both \<and> feasible (model (wb_pair 4)) sol_uber
   \<and> feasible (model (wb_pair 4)) sol_split
   \<and> uber_total (wb_pair 4) sol_both < uber_total (wb_pair 4) sol_uber
   \<and> objective_value (model (wb_pair 4)) sol_both < objective_value (model (wb_pair 4)) sol_uber
   \<and> uber_total (wb_pair 4) sol_both = uber_total (wb_pair 4) sol_split
   \<and> drivers_used (wb_pair 4) sol_both < drivers_used (wb_pair 4) sol_split
   \<and> objective_value (model (wb_pair 4)) sol_both < objective_value (model (wb_pair 4)) sol_split"
proof -
  have tb: "\<forall>(i, k) \<in> set (pairs (dist_df (wb_pair 4)) (locations (students_location (wb_pair 4)))).
           0 \<le> num_value (travel (dist_df (wb_pair 4)) i k)
           \<and> num_value (travel (dist_df (wb_pair 4)) i k) \<le> 4"
    by (simp add: wb_pair_pairs wb_pair_travel)
  have t0: "(0::real) \<le> 4" by simp
  note d1 = weighted_dominance [OF feasible_both feasible_uber tb t0]
  note d2 = weighted_dominance [OF feasible_both feasible_split tb t0]
  show ?thesis
    using d1 d2 feasible_both [of 4] feasible_uber [of 4] feasible_split [of 4]
    by (simp add: wb_pair_drivers tiers_both tiers_uber tiers_split
        BIG_UBER_def BIG_DRIVER_def SMALL_TRIP_def)
qed

text \<open>
  Claim C2 as stated fails. With travel time 20000 the two-stop solution has the smaller
  ride-service total and the larger objective; with travel time 15 it uses fewer drivers
  than the solution with a driver per stop, at equal ride-service totals, and has the
  larger objective.
\<close>

theorem lexicographic_dominance_counterexample:
  "feasible (model (wb_pair 20000)) sol_both \<and> feasible (model (wb_pair 20000)) sol_uber
   \<and> uber_total (wb_pair 20000) sol_both < uber_total (wb_pair 20000) sol_uber
   \<and> \<not> objective_value (model (wb_pair 20000)) sol_both
         < objective_value (model (wb_pair 20000)) sol_uber
   \<and> feasible (model (wb_pair 15)) sol_both \<and> feasible (model (wb_pair 15)) sol_split
   \<and> uber_total (wb_pair 15) sol_both = uber_total (wb_pair 15) sol_split
   \<and> drivers_used (wb_pair 15) sol_both < drivers_used (wb_pair 15) sol_split
   \<and> \<not> objective_value (model (wb_pair 15)) sol_both
         < objective_value (model (wb_pair 15)) sol_split"
  by (simp add: feasible_both feasible_uber feasible_split tiers_both tiers_uber tiers_split
      objective_both objective_uber objective_split')

text \<open>
  Claim C4 (driver rows), as amended. The driver list keeps one entry per row, but the
  capacity dict and the decision variables are keyed by the name, every variable declared
  once. The capacity found for a row is that of the last row bearing its name, and rows
  bearing one name share that capacity and one set of declared variables. When the names
  are pairwise distinct every row has its own capacity and its own declared variables.
  When a name repeats, adding the constraints stops with the overlapping-name error of the
  solver library, so no problem is built and nothing is solved.
\<close>

theorem driver_rows_keyed_by_name:
  "length (drivers (drivers_rows wb)) = length (drivers_rows wb)
   \<and> distinct (map decl_var (lp_variables (model wb)))
   \<and> (\<forall>r < length (drivers_rows wb).
        driver_caps (drivers_rows wb) (drivers (drivers_rows wb) ! r)
          = Some (snd (last (filter (\<lambda>row. fst row = drivers (drivers_rows wb) ! r) (drivers_rows wb))))
        \<and> Decl (U (drivers (drivers_rows wb) ! r)) Binary None
            \<in> set (driver_variables (model wb) (drivers (drivers_rows wb) ! r))
        \<and> (\<forall>r' < length (drivers_rows wb).
              drivers (drivers_rows wb) ! r' = drivers (drivers_rows wb) ! r \<longrightarrow>
              driver_caps (drivers_rows wb) (drivers (drivers_rows wb) ! r')
                = driver_caps (drivers_rows wb) (drivers (drivers_rows wb) ! r)
              \<and> driver_variables (model wb) (drivers (drivers_rows wb) ! r')
                = driver_variables (model wb) (drivers (drivers_rows wb) ! r)))
   \<and> (distinct (drivers (drivers_rows wb)) \<longrightarrow>
        (\<forall>r < length (drivers_rows wb).
           driver_caps (drivers_rows wb) (drivers (drivers_rows wb) ! r)
             = Some (cap_series (drivers_rows wb) ! r)
           \<and> (\<forall>r' < length (drivers_rows wb). r' \<noteq> r \<longrightarrow>
                 set (driver_variables (model wb) (drivers (drivers_rows wb) ! r'))
                 \<inter> set (driver_variables (model wb) (drivers (drivers_rows wb) ! r)) = {})))
   \<and> (\<not> distinct (drivers (drivers_rows wb)) \<longrightarrow>
        build (normalise wb) = Inl PulpError
        \<and> (schema_check wb = None \<longrightarrow> run solver wb = Inl PulpError))"
proof -
  let ?R = "drivers_rows wb"
  let ?D = "drivers ?R"
  have len: "length ?D = length ?R" by (simp add: drivers_def)
  have decl: "distinct (map decl_var (lp_variables (model wb)))"
    by (simp add: model_def formulation_def distinct_declared_vars)
  have last_row: "driver_caps ?R (?D ! r) = Some (snd (last (filter (\<lambda>row. fst row = ?D ! r) ?R)))"
    if "r < length ?R" for r
  proof -
    have "?D ! r \<in> fst ` set ?R"
      using that by (auto simp: drivers_def intro!: image_eqI [of _ _ "?R ! r"])
    then show ?thesis by (simp add: driver_caps_map_of map_of_rev_last)
  qed
  have flag: "Decl (U (?D ! r)) Binary None \<in> set (driver_variables (model wb) (?D ! r))"
    if "r < length ?R" for r
  proof -
    have "?D ! r \<in> set (i_drivers (normalise wb))"
      using that len by (simp add: normalise_simps)
    from used_flag_declared [OF this] show ?thesis
      by (simp add: driver_variables_def model_def formulation_def)
  qed
  have own_cap: "driver_caps ?R (?D ! r) = Some (cap_series ?R ! r)"
    if d: "distinct ?D" and r: "r < length ?R" for r
  proof -
    have "distinct (rev (map fst ?R))" using d by (simp add: drivers_def)
    then have "distinct (map fst (rev ?R))" by (simp only: rev_map)
    moreover have "(fst (?R ! r), snd (?R ! r)) \<in> set (rev ?R)" using r by simp
    ultimately have "map_of (rev ?R) (fst (?R ! r)) = Some (snd (?R ! r))"
      by (simp only: map_of_eq_Some_iff)
    then show ?thesis using r by (simp add: driver_caps_map_of drivers_def cap_series_def)
  qed
  have own_vars: "set (driver_variables (model wb) (?D ! r'))
                  \<inter> set (driver_variables (model wb) (?D ! r)) = {}"
    if d: "distinct ?D" and r: "r < length ?R" "r' < length ?R" "r' \<noteq> r" for r r'
  proof -
    have "(?D ! r' = ?D ! r) = (r' = r)"
      using d r len by (intro nth_eq_iff_index_eq) simp_all
    with r have "?D ! r' \<noteq> ?D ! r" by simp
    then show ?thesis by (auto simp: driver_variables_def)
  qed
  have stop: "build (normalise wb) = Inl PulpError" if "\<not> distinct ?D"
    using that by (intro repeated_driver_stops_build) (simp add: normalise_simps)
  have stop_run: "run solver wb = Inl PulpError" if "\<not> distinct ?D" "schema_check wb = None"
    using stop [OF that(1)] that(2) by (simp add: run_def)
  show ?thesis
    using len decl last_row flag own_cap own_vars stop stop_run by (intro conjI allI impI) auto
qed

text \<open>
  The theorem applied to the two-location workbook, whose names are distinct, and to the
  same workbook with the name Ann on both driver rows.
\<close>

theorem driver_rows_keyed_by_name_witness:
  "distinct (drivers (drivers_rows (wb_pair 4)))
   \<and> driver_caps (drivers_rows (wb_pair 4)) (drivers (drivers_rows (wb_pair 4)) ! 0)
       = Some (cap_series (drivers_rows (wb_pair 4)) ! 0)
   \<and> set (driver_variables (model (wb_pair 4)) (drivers (drivers_rows (wb_pair 4)) ! 1))
       \<inter> set (driver_variables (model (wb_pair 4)) (drivers (drivers_rows (wb_pair 4)) ! 0)) = {}
   \<and> \<not> distinct (drivers (drivers_rows wb_dup))
   \<and> schema_check wb_dup = None
   \<and> run solver_infeasible wb_dup = Inl PulpError
   \<and> driver_caps (drivers_rows wb_dup) (drivers (drivers_rows wb_dup) ! 0) = Some 5"
proof -
  have d: "distinct (drivers (drivers_rows (wb_pair 4)))" by (simp add: wb_pair_drivers)
  have l0: "0 < length (drivers_rows (wb_pair 4))" and l1: "1 < length (drivers_rows (wb_pair 4))"
    by (simp_all add: wb_pair_def)
  have nd: "\<not> distinct (drivers (drivers_rows wb_dup))"
    by (simp add: wb_dup_def rows_dup_def drivers_def)
  have sc: "schema_check wb_dup = None"
    by (simp add: wb_dup_def wb_pair_def schema_check_def SHEET_STUDENT_def SHEET_DRIVER_def
        SHEET_DISTANCE_def LOCATION_COL_def CAPACITY_COL_def)
  have l0': "0 < length (drivers_rows wb_dup)" by (simp add: wb_dup_def rows_dup_def)
  note own = driver_rows_keyed_by_name [of "wb_pair 4" solver_infeasible,
      THEN conjunct2, THEN conjunct2, THEN conjunct2, THEN conjunct1, rule_format, OF d l0]
  note shared = driver_rows_keyed_by_name [of wb_dup solver_infeasible,
      THEN conjunct2, THEN conjunct2, THEN conjunct1, rule_format, OF l0']
  note stop = driver_rows_keyed_by_name [of wb_dup solver_infeasible,
      THEN conjunct2, THEN conjunct2, THEN conjunct2, THEN conjunct2, rule_format, OF nd]
  have five: "snd (last (filter (\<lambda>row. fst row = drivers (drivers_rows wb_dup) ! 0) (drivers_rows wb_dup))) = 5"
    by (simp add: wb_dup_def rows_dup_def drivers_def)
  have disj: "set (driver_variables (model (wb_pair 4)) (drivers (drivers_rows (wb_pair 4)) ! 1))
       \<inter> set (driver_variables (model (wb_pair 4)) (drivers (drivers_rows (wb_pair 4)) ! 0)) = {}"
    using own [THEN conjunct2, rule_format, OF l1] by simp
  show ?thesis
    using d own [THEN conjunct1] disj nd sc stop [THEN conjunct2, rule_format, OF sc]
      shared [THEN conjunct1] five
    by simp
qed

text \<open>
  Claim C4 as stated fails: of two rows named Ann the first does not keep its capacity,
  both rows address the same six declared variables, and the build ends in the
  overlapping-name error.
\<close>

theorem driver_rows_counterexample:
  "length (drivers (drivers_rows wb_dup)) = 2
   \<and> drivers (drivers_rows wb_dup) ! 0 = drivers (drivers_rows wb_dup) ! 1
   \<and> driver_caps (drivers_rows wb_dup) (drivers (drivers_rows wb_dup) ! 0)
       \<noteq> Some (cap_series (drivers_rows wb_dup) ! 0)
   \<and> driver_variables (model wb_dup) (drivers (drivers_rows wb_dup) ! 0)
       = driver_variables (model wb_dup) (drivers (drivers_rows wb_dup) ! 1)
   \<and> driver_variables (model wb_dup) ''Ann''
       = [Decl (X ''Ann'' ''A'') Binary None, Decl (X ''Ann'' ''B'') Binary None,
          Decl (Y ''Ann'' ''A'') Integer (Some 0), Decl (Y ''Ann'' ''B'') Integer (Some 0),
          Decl (U ''Ann'') Binary None, Decl (W ''Ann'' 0) Binary None]
   \<and> build (normalise wb_dup) = Inl PulpError"
proof -
  have "build (normalise wb_dup) = Inl PulpError"
    by (rule repeated_driver_stops_build)
      (simp add: normalise_simps wb_dup_def rows_dup_def drivers_def)
  moreover have "driver_variables (model wb_dup) ''Ann''
       = [Decl (X ''Ann'' ''A'') Binary None, Decl (X ''Ann'' ''B'') Binary None,
          Decl (Y ''Ann'' ''A'') Integer (Some 0), Decl (Y ''Ann'' ''B'') Integer (Some 0),
          Decl (U ''Ann'') Binary None, Decl (W ''Ann'' 0) Binary None]"
    by (simp add: driver_variables_def wb_dup_def rows_dup_def wb_pair_def model_unfold)
  ultimately show ?thesis
    by (simp add: wb_dup_def rows_dup_def drivers_def cap_series_def driver_caps_def)
qed



text \<open>
  Claim C8 (symmetric travel table). The source announces a symmetric table, but each
  entry prefers its own forward cell: where the sheet holds different numbers in the two
  directions, the two entries differ.
\<close>

theorem travel_not_symmetric:
  "travel dist_oneway ''A'' ''B'' = FloatObj 5 \<and> travel dist_oneway ''B'' ''A'' = FloatObj 7
   \<and> travel dist_oneway ''A'' ''B'' \<noteq> travel dist_oneway ''B'' ''A''"
  by (simp add: travel_def dist_oneway_def)

text \<open>The same table read through the numeric values.\<close>

theorem travel_not_symmetric_witness:
  "num_value (travel dist_oneway ''A'' ''B'') < num_value (travel dist_oneway ''B'' ''A'')"
  using travel_not_symmetric by simp

text \<open>
  Claim C9 (status logging), as amended. The status line is printed exactly for the
  statuses Infeasible, Unbounded and Undefined, and then it carries the status string.
\<close>

theorem status_logged_iff:
  "status_log st =
     (if st = Infeasible \<or> st = Unbounded \<or> st = Undefined
      then Some (''Solver status: '' @ LpStatus st) else None)"
  by (cases st) (simp_all add: status_log_def)

text \<open>The theorem applied to an infeasible and to an optimal outcome.\<close>

theorem status_logged_iff_witness:
  "status_log Infeasible = Some ''Solver status: Infeasible'' \<and> status_log Optimal = None"
  using status_logged_iff [of Infeasible] status_logged_iff [of Optimal] by simp

text \<open>Claim C9 as stated fails: a run whose status is Not Solved prints no status line.\<close>

theorem not_solved_not_logged:
  "NotSolved \<noteq> Optimal \<and> LpStatus NotSolved = ''Not Solved'' \<and> status_log NotSolved = None"
  by (simp add: status_log_def)

text \<open>
  Claim C7 (schema validation), as amended. The run ends in the validation error exactly
  when one of the three sheets is absent, the students table has no location column, or the
  drivers table has neither a capacity nor a num_students column; no other column is
  tested.
\<close>

theorem schema_error_iff:
  "(\<exists>r. run solver wb = Inl (ValueError r)) \<longleftrightarrow>
     SHEET_STUDENT \<notin> set (sheet_names wb) \<or> SHEET_DRIVER \<notin> set (sheet_names wb)
     \<or> SHEET_DISTANCE \<notin> set (sheet_names wb)
     \<or> LOCATION_COL \<notin> set (students_columns wb)
     \<or> (CAPACITY_COL \<notin> set (drivers_columns wb) \<and> ''num_students'' \<notin> set (drivers_columns wb))"
proof (cases "schema_check wb")
  case None
  then have "run solver wb \<noteq> Inl (ValueError r)" for r
    by (auto simp: run_def Let_def split: prod.splits sum.splits
        dest: extract_results_error build_error)
  moreover have "\<not> (SHEET_STUDENT \<notin> set (sheet_names wb) \<or> SHEET_DRIVER \<notin> set (sheet_names wb)
     \<or> SHEET_DISTANCE \<notin> set (sheet_names wb)
     \<or> LOCATION_COL \<notin> set (students_columns wb)
     \<or> (CAPACITY_COL \<notin> set (drivers_columns wb) \<and> ''num_students'' \<notin> set (drivers_columns wb)))"
    using None by (auto simp: schema_check_def split: if_splits)
  ultimately show ?thesis by blast
next
  case (Some e)
  then have "run solver wb = Inl e" by (simp add: run_def)
  moreover from Some have "\<exists>r. e = ValueError r"
    by (auto simp: schema_check_def split: if_splits)
  moreover from Some have "SHEET_STUDENT \<notin> set (sheet_names wb) \<or> SHEET_DRIVER \<notin> set (sheet_names wb)
     \<or> SHEET_DISTANCE \<notin> set (sheet_names wb)
     \<or> LOCATION_COL \<notin> set (students_columns wb)
     \<or> (CAPACITY_COL \<notin> set (drivers_columns wb) \<and> ''num_students'' \<notin> set (drivers_columns wb))"
    by (auto simp: schema_check_def split: if_splits)
  ultimately show ?thesis by auto
qed

text \<open>The theorem applied to a students table without its location column.\<close>

theorem schema_error_iff_witness:
  "run solver_infeasible (wb_pair 4\<lparr>students_columns := [''student_name'']\<rparr>) = Inl (ValueError MissingLocationColumn)
   \<and> LOCATION_COL \<notin> set (students_columns (wb_pair 4\<lparr>students_columns := [''student_name'']\<rparr>))"
proof -
  have c: "LOCATION_COL \<notin> set (students_columns (wb_pair 4\<lparr>students_columns := [''student_name'']\<rparr>))"
    by (simp add: LOCATION_COL_def)
  have "\<exists>r. run solver_infeasible (wb_pair 4\<lparr>students_columns := [''student_name'']\<rparr>) = Inl (ValueError r)"
    using schema_error_iff [of solver_infeasible "wb_pair 4\<lparr>students_columns := [''student_name'']\<rparr>"] c by simp
  then show ?thesis
    using c by (auto simp: run_def schema_check_def wb_pair_def SHEET_STUDENT_def SHEET_DRIVER_def
        SHEET_DISTANCE_def split: option.splits if_splits)
qed

text \<open>
  Claim C7 as stated fails: a workbook whose tables lack the announced student_name and
  driver_name columns passes the validation.
\<close>

theorem unchecked_columns_accepted:
  "''student_name'' \<in> set students_expected_columns
   \<and> ''student_name'' \<notin> set (students_columns wb_no_names)
   \<and> ''driver_name'' \<in> set drivers_expected_columns
   \<and> ''driver_name'' \<notin> set (drivers_columns wb_no_names)
   \<and> schema_check wb_no_names = None"
  by (simp add: students_expected_columns_def drivers_expected_columns_def wb_no_names_def
      schema_check_def SHEET_STUDENT_def SHEET_DRIVER_def SHEET_DISTANCE_def LOCATION_COL_def
      CAPACITY_COL_def)

end
